theory Spec2Isabelle
  imports Main
begin

section \<open>Schema model (the interfaces of App.tsx)\<close>

text \<open>
  The TypeScript interfaces become records. Optional members (\<open>options?\<close>,
  \<open>maxLength?\<close>, \<open>minLength?\<close> and so on) are \<open>option\<close> values, \<open>None\<close> standing
  for \<open>undefined\<close>; \<open>validation\<close> holds the message of a \<open>FormFieldValidation\<close>. JavaScript numbers that hold lengths and bounds are integers here.
  A JavaScript string is a list of code units; \<open>char\<close> covers the code units below 256,
  and \<open>length\<close> is the \<open>.length\<close> of the source. Field identifiers are taken not to
  be names of members that every JavaScript object inherits (such as "constructor"), so
  that a lookup in \<open>formValues\<close> or \<open>formErrors\<close> finds own entries only.
\<close>

datatype FieldType = Text | Tel | Email | Textarea | Date | Dropdown | Radio | Checkbox

record FormFieldOption =
  optValue :: string
  optLabel :: string
  optDataTestId :: "string option"

record FormField =
  fieldId :: string
  fieldType :: FieldType
  label :: string
  placeholder :: "string option"
  required :: bool
  dataTestId :: string
  validation :: "string option"
  options :: "FormFieldOption list option"
  maxLength :: "int option"
  minLength :: "int option"

record FormSection =
  sectionId :: int
  title :: string
  description :: string
  sectionFields :: "FormField list"

record FormData =
  formTitle :: string
  formId :: string
  version :: string
  sections :: "FormSection list"

text \<open>
  \<open>formValues\<close> is a record from strings to values of any type. The handlers of the component only ever
  store strings (text inputs, selects, radios) and arrays of strings (checkbox groups);
  a key that was never written reads as \<open>undefined\<close>, which is \<open>None\<close> in the map.
\<close>

datatype FieldValue = Str string | Arr "string list"

type_synonym ValueMap = "string \<rightharpoonup> FieldValue"
type_synonym ErrorMap = "string \<rightharpoonup> string"

record FormState =
  currentSection :: nat
  formValues :: ValueMap
  formErrors :: ErrorMap

definition initialState :: FormState where
  "initialState = \<lparr>currentSection = 0, formValues = Map.empty, formErrors = Map.empty\<rparr>"

section \<open>JavaScript primitives used by the component\<close>

text \<open>Truthiness of a stored value: \<open>undefined\<close> and \<open>""\<close> are falsy, every array is truthy.\<close>

definition truthy :: "FieldValue option \<Rightarrow> bool" where
  "truthy value = (case value of
       None \<Rightarrow> False
     | Some (Str s) \<Rightarrow> s \<noteq> []
     | Some (Arr xs) \<Rightarrow> True)"

text \<open>Truthiness of a looked-up error message (\<open>formErrors[fieldId]\<close>).\<close>

definition truthyMessage :: "string option \<Rightarrow> bool" where
  "truthyMessage m = (case m of None \<Rightarrow> False | Some s \<Rightarrow> s \<noteq> [])"

text \<open>
  \<open>String.prototype.trim\<close> strips white space and line terminators from both ends.
  Among the code units below 256 these are TAB, LF, VT, FF, CR, SP and NBSP.
\<close>

definition isWhiteSpace :: "char \<Rightarrow> bool" where
  "isWhiteSpace c = (c \<in> set [CHR 0x09, CHR 0x0A, CHR 0x0B, CHR 0x0C, CHR 0x0D, CHR 0x20, CHR 0xA0])"

definition trim :: "string \<Rightarrow> string" where
  "trim s = rev (dropWhile isWhiteSpace (rev (dropWhile isWhiteSpace s)))"

text \<open>
  Decimal rendering of an integer inside a template literal (JavaScript prints integers
  of magnitude below \<open>10^21\<close> this way).
\<close>

fun digitsOf :: "nat \<Rightarrow> string" where
  "digitsOf n = (if n < 10 then [''0123456789'' ! n]
                 else digitsOf (n div 10) @ [''0123456789'' ! (n mod 10)])"

declare digitsOf.simps [simp del]

definition numberToString :: "int \<Rightarrow> string" where
  "numberToString i = (if i < 0 then ''-'' @ digitsOf (nat (- i)) else digitsOf (nat i))"

text \<open>\<open>Array.prototype.indexOf\<close> (\<open>-1\<close> when absent) and \<open>splice(index, 1)\<close>.\<close>

fun indexOf :: "string list \<Rightarrow> string \<Rightarrow> int" where
  "indexOf [] v = - 1"
| "indexOf (x # xs) v =
     (if x = v then 0 else (let i = indexOf xs v in if i = - 1 then - 1 else i + 1))"

definition splice1 :: "string list \<Rightarrow> nat \<Rightarrow> string list" where
  "splice1 xs i = take i xs @ drop (Suc i) xs"

section \<open>DynamicForm: validation\<close>

text \<open>The three conditions of \<open>validateSection\<close>, in the order and shape of the source.\<close>

definition requiredCond :: "FormField \<Rightarrow> FieldValue option \<Rightarrow> bool" where
  "requiredCond field value =
     ((required field \<and>
        (\<not> truthy value \<or> (case value of Some (Str s) \<Rightarrow> trim s = [] | _ \<Rightarrow> False)))
      \<or> (case value of Some (Arr xs) \<Rightarrow> length xs = 0 | _ \<Rightarrow> False))"

definition minLengthCond :: "FormField \<Rightarrow> FieldValue option \<Rightarrow> bool" where
  "minLengthCond field value =
     (minLength field \<noteq> None \<and> truthy value \<and>
      (case value of Some (Str s) \<Rightarrow> int (length s) < the (minLength field) | _ \<Rightarrow> False))"

definition maxLengthCond :: "FormField \<Rightarrow> FieldValue option \<Rightarrow> bool" where
  "maxLengthCond field value =
     (maxLength field \<noteq> None \<and> truthy value \<and>
      (case value of Some (Str s) \<Rightarrow> int (length s) > the (maxLength field) | _ \<Rightarrow> False))"

definition requiredMessage :: "FormField \<Rightarrow> string" where
  "requiredMessage field = label field @ '' is required''"

definition minLengthMessage :: "FormField \<Rightarrow> string" where
  "minLengthMessage field =
     label field @ '' must be at least '' @ numberToString (the (minLength field)) @ '' characters''"

definition maxLengthMessage :: "FormField \<Rightarrow> string" where
  "maxLengthMessage field =
     label field @ '' must be at most '' @ numberToString (the (maxLength field)) @ '' characters''"

text \<open>
  The body of the \<open>forEach\<close> callback. The accumulator is the pair of the two variables
  the callback mutates: \<open>newErrors\<close> and \<open>isValid\<close>.
\<close>

definition validateField :: "ValueMap \<Rightarrow> FormField \<Rightarrow> ErrorMap \<times> bool \<Rightarrow> ErrorMap \<times> bool" where
  "validateField vals field acc =
     (let value = vals (fieldId field);
          acc1 = (if requiredCond field value
                  then ((fst acc)(fieldId field \<mapsto> requiredMessage field), False) else acc);
          acc2 = (if minLengthCond field value
                  then ((fst acc1)(fieldId field \<mapsto> minLengthMessage field), False) else acc1);
          acc3 = (if maxLengthCond field value
                  then ((fst acc2)(fieldId field \<mapsto> maxLengthMessage field), False) else acc2)
      in acc3)"

definition sectionErrors :: "FormSection \<Rightarrow> ValueMap \<Rightarrow> ErrorMap \<times> bool" where
  "sectionErrors section vals = fold (validateField vals) (sectionFields section) (Map.empty, True)"

text \<open>
  \<open>validateSection\<close> reads \<open>formData.sections[sectionIndex]\<close>; past the end that is
  \<open>undefined\<close> and \<open>section.fields\<close> throws a TypeError, which is \<open>None\<close> here. Otherwise it
  calls \<open>setFormErrors({...formErrors, ...newErrors})\<close> and returns \<open>isValid\<close>.
\<close>

definition validateSection :: "FormData \<Rightarrow> FormState \<Rightarrow> nat \<Rightarrow> (bool \<times> FormState) option" where
  "validateSection fd st sectionIndex =
     (if sectionIndex < length (sections fd)
      then (let (newErrors, isValid) = sectionErrors (sections fd ! sectionIndex) (formValues st)
            in Some (isValid, st\<lparr>formErrors := formErrors st ++ newErrors\<rparr>))
      else None)"

section \<open>DynamicForm: event handlers\<close>

definition handleInputChange :: "string \<Rightarrow> FieldValue \<Rightarrow> FormState \<Rightarrow> FormState" where
  "handleInputChange fid value st =
     (let st1 = st\<lparr>formValues := (formValues st)(fid \<mapsto> value)\<rparr>
      in if truthyMessage (formErrors st fid)
         then st1\<lparr>formErrors := (formErrors st)(fid := None)\<rparr>
         else st1)"

definition goToNextSection :: "FormData \<Rightarrow> FormState \<Rightarrow> FormState option" where
  "goToNextSection fd st =
     (case validateSection fd st (currentSection st) of
        None \<Rightarrow> None
      | Some (isValid, st1) \<Rightarrow>
          Some (if isValid
                then (if int (currentSection st) < int (length (sections fd)) - 1
                      then st1\<lparr>currentSection := currentSection st + 1\<rparr>
                      else st1)
                else st1))"

definition goToPrevSection :: "FormState \<Rightarrow> FormState" where
  "goToPrevSection st =
     (if currentSection st > 0 then st\<lparr>currentSection := currentSection st - 1\<rparr> else st)"

text \<open>\<open>handleSubmit\<close> validates the current section and, when valid, only logs the values.\<close>

definition handleSubmit :: "FormData \<Rightarrow> FormState \<Rightarrow> FormState option" where
  "handleSubmit fd st =
     (case validateSection fd st (currentSection st) of
        None \<Rightarrow> None
      | Some (isValid, st1) \<Rightarrow> Some st1)"

text \<open>
  The checkbox \<open>onChange\<close> of \<open>renderField\<close>. \<open>renderValue\<close> is
  \<open>formValues[field.fieldId] || ""\<close>, \<open>checkboxValues\<close> is
  \<open>Array.isArray(value) ? value : []\<close>. The branch for \<open>e.target.checked\<close> has an empty
  body in the source (the push is commented out).
\<close>

definition renderValue :: "FieldValue option \<Rightarrow> FieldValue" where
  "renderValue v = (if truthy v then the v else Str [])"

definition checkboxValues :: "FieldValue \<Rightarrow> string list" where
  "checkboxValues value = (case value of Arr xs \<Rightarrow> xs | Str s \<Rightarrow> [])"

definition checkboxUpdated :: "string list \<Rightarrow> string \<Rightarrow> bool \<Rightarrow> string list" where
  "checkboxUpdated cbValues v checked =
     (let updatedValues = cbValues
      in if checked then updatedValues
         else (let index = indexOf updatedValues v
               in if index \<noteq> - 1 then splice1 updatedValues (nat index) else updatedValues))"

definition checkboxOnChange :: "FormField \<Rightarrow> FormFieldOption \<Rightarrow> bool \<Rightarrow> FormState \<Rightarrow> FormState" where
  "checkboxOnChange field opt checked st =
     handleInputChange (fieldId field)
       (Arr (checkboxUpdated (checkboxValues (renderValue (formValues st (fieldId field))))
               (optValue opt) checked))
       st"

text \<open>The states the form can be in: the initial one and whatever the handlers make of it.\<close>

inductive reachable :: "FormData \<Rightarrow> FormState \<Rightarrow> bool" for fd :: FormData where
  reach_init: "reachable fd initialState"
| reach_input: "reachable fd st \<Longrightarrow> reachable fd (handleInputChange fid value st)"
| reach_next: "reachable fd st \<Longrightarrow> goToNextSection fd st = Some st1 \<Longrightarrow> reachable fd st1"
| reach_prev: "reachable fd st \<Longrightarrow> reachable fd (goToPrevSection st)"
| reach_submit: "reachable fd st \<Longrightarrow> handleSubmit fd st = Some st1 \<Longrightarrow> reachable fd st1"

section \<open>App: registration\<close>

record User =
  rollNumber :: string
  name :: string

record AppState =
  user :: "User option"
  formData :: "FormData option"
  isLoading :: bool
  error :: "string option"
  isLoggedIn :: bool

text \<open>
  What \<open>fetch\<close> and \<open>response.json()\<close> can deliver: the fetch rejects (with an Error and its
  message), or there is a response with its \<open>ok\<close> flag whose body either fails to parse
  (an Error again) or is an object whose \<open>message\<close> member is a string or missing.
\<close>

datatype ResponseBody = InvalidJson string | Json "string option"

datatype FetchResult = FetchRejected string | Response bool ResponseBody

definition userExistsMessage :: string where
  "userExistsMessage = ''User already exists. Fetch /get-form to get form json''"

text \<open>\<open>data.message || "Failed to register user"\<close>\<close>

definition messageOrDefault :: "string option \<Rightarrow> string" where
  "messageOrDefault m = (if truthyMessage m then the m else ''Failed to register user'')"

definition registerUser :: "User \<Rightarrow> FetchResult \<Rightarrow> AppState \<Rightarrow> AppState" where
  "registerUser userData res st =
     (let st0 = st\<lparr>isLoading := True, error := None\<rparr>;
          st3 = (case res of
                   FetchRejected m \<Rightarrow> st0\<lparr>error := Some m\<rparr>
                 | Response ok body \<Rightarrow>
                     (case body of
                        InvalidJson m \<Rightarrow> st0\<lparr>error := Some m\<rparr>
                      | Json message \<Rightarrow>
                          (let st1 = (if message = Some userExistsMessage
                                      then st0\<lparr>user := Some userData, isLoggedIn := True\<rparr>
                                      else st0)
                           in if \<not> ok
                              then st1\<lparr>error := Some (messageOrDefault message)\<rparr>
                              else st1\<lparr>user := Some userData, isLoggedIn := True\<rparr>)))
      in st3\<lparr>isLoading := False\<rparr>)"

section \<open>The last applicable rule\<close>

text \<open>
  The message that section 4.1 of the specification retains for one field: the rules are
  tried in the order required, min-length, max-length, and the last one that fails wins.
  This definition follows the specification; \<open>validateField\<close> above follows the source.
\<close>

definition lastApplicable :: "FormField \<Rightarrow> FieldValue option \<Rightarrow> string option" where
  "lastApplicable field value =
     (if maxLengthCond field value then Some (maxLengthMessage field)
      else if minLengthCond field value then Some (minLengthMessage field)
      else if requiredCond field value then Some (requiredMessage field)
      else None)"

section \<open>Example forms\<close>

text \<open>
  A form of two sections: a required text field "Name" of 2 to 10 characters and an
  optional text field "Nickname" of at least 2 characters, then an optional checkbox
  group "Hobbies" with the options a and b.
\<close>

definition nameField :: FormField where
  "nameField = \<lparr>fieldId = ''name'', fieldType = Text, label = ''Name'',
     placeholder = Some ''Your name'', required = True, dataTestId = ''name'',
     validation = None, options = None, maxLength = Some 10, minLength = Some 2\<rparr>"

definition nickField :: FormField where
  "nickField = \<lparr>fieldId = ''nick'', fieldType = Text, label = ''Nickname'',
     placeholder = None, required = False, dataTestId = ''nick'',
     validation = None, options = None, maxLength = None, minLength = Some 2\<rparr>"

definition optionA :: FormFieldOption where
  "optionA = \<lparr>optValue = ''a'', optLabel = ''A'', optDataTestId = None\<rparr>"

definition optionB :: FormFieldOption where
  "optionB = \<lparr>optValue = ''b'', optLabel = ''B'', optDataTestId = None\<rparr>"

definition hobbiesField :: FormField where
  "hobbiesField = \<lparr>fieldId = ''hobbies'', fieldType = Checkbox, label = ''Hobbies'',
     placeholder = None, required = False, dataTestId = ''hobbies'', validation = None,
     options = Some [optionA, optionB], maxLength = None, minLength = None\<rparr>"

definition personalSection :: FormSection where
  "personalSection = \<lparr>sectionId = 1, title = ''Personal'', description = ''About you'',
     sectionFields = [nameField, nickField]\<rparr>"

definition hobbiesSection :: FormSection where
  "hobbiesSection = \<lparr>sectionId = 2, title = ''Hobbies'', description = ''Free time'',
     sectionFields = [hobbiesField]\<rparr>"

definition exampleForm :: FormData where
  "exampleForm = \<lparr>formTitle = ''Student form'', formId = ''f1'', version = ''1'',
     sections = [personalSection, hobbiesSection]\<rparr>"

definition alice :: User where
  "alice = \<lparr>rollNumber = ''RA1'', name = ''Alice''\<rparr>"

definition loggedOut :: AppState where
  "loggedOut = \<lparr>user = None, formData = None, isLoading = False, error = None,
     isLoggedIn = False\<rparr>"

section \<open>Facts about the primitives and the validation loop\<close>

lemmas example_defs = nameField_def nickField_def optionA_def optionB_def hobbiesField_def
  personalSection_def hobbiesSection_def exampleForm_def alice_def loggedOut_def initialState_def

lemmas validation_defs = sectionErrors_def validateField_def requiredCond_def minLengthCond_def
  maxLengthCond_def truthy_def trim_def isWhiteSpace_def requiredMessage_def
  minLengthMessage_def maxLengthMessage_def numberToString_def digitsOf.simps

text \<open>A string trims to the empty string exactly when it consists of white space only.\<close>

lemma trim_empty_iff: "trim s = [] \<longleftrightarrow> (\<forall>c\<in>set s. isWhiteSpace c)"
proof (cases "dropWhile isWhiteSpace s")
  case Nil
  then have "\<forall>c\<in>set s. isWhiteSpace c" by (simp add: dropWhile_eq_Nil_conv)
  with Nil show ?thesis by (auto simp: trim_def dest: set_dropWhileD)
next
  case (Cons a as)
  then have a: "\<not> isWhiteSpace a" using hd_dropWhile[of isWhiteSpace s] by auto
  have "a \<in> set (dropWhile isWhiteSpace s)" using Cons by simp
  then have "a \<in> set s" using set_dropWhileD by fastforce
  with a have no: "\<not> (\<forall>c\<in>set s. isWhiteSpace c)" by blast
  have "trim s = rev (dropWhile isWhiteSpace (rev (a # as)))"
    by (simp only: trim_def Cons)
  moreover have "dropWhile isWhiteSpace (rev (a # as)) \<noteq> []"
    using a by (simp add: dropWhile_eq_Nil_conv)
  ultimately have "trim s \<noteq> []" by simp
  with no show ?thesis by blast
qed

lemma requiredCond_iff:
  "requiredCond f v \<longleftrightarrow>
     (required f \<and> (v = None \<or> (\<exists>s. v = Some (Str s) \<and> (\<forall>c\<in>set s. isWhiteSpace c))))
     \<or> v = Some (Arr [])"
  by (auto simp: requiredCond_def truthy_def trim_empty_iff split: option.splits FieldValue.splits)

lemma validateField_lastApplicable:
  "validateField vals f acc =
     (case lastApplicable f (vals (fieldId f)) of
        None \<Rightarrow> acc
      | Some m \<Rightarrow> ((fst acc)(fieldId f \<mapsto> m), False))"
  by (simp add: validateField_def lastApplicable_def Let_def)

lemma validateField_None:
  "lastApplicable f (vals (fieldId f)) = None \<Longrightarrow> validateField vals f acc = acc"
  by (simp add: validateField_lastApplicable)

lemma validateField_Some:
  "lastApplicable f (vals (fieldId f)) = Some m \<Longrightarrow>
   validateField vals f acc = ((fst acc)(fieldId f \<mapsto> m), False)"
  by (simp add: validateField_lastApplicable)

lemma validateField_other:
  "k \<noteq> fieldId f \<Longrightarrow> fst (validateField vals f acc) k = fst acc k"
  by (cases "lastApplicable f (vals (fieldId f))")
     (simp_all add: validateField_None validateField_Some)

lemma validateField_at:
  "fst (validateField vals f acc) (fieldId f) =
     (case lastApplicable f (vals (fieldId f)) of
        None \<Rightarrow> fst acc (fieldId f)
      | Some m \<Rightarrow> Some m)"
  by (cases "lastApplicable f (vals (fieldId f))")
     (simp_all add: validateField_None validateField_Some)

lemma fold_validateField_other:
  "k \<notin> fieldId ` set fs \<Longrightarrow> fst (fold (validateField vals) fs acc) k = fst acc k"
  by (induction fs arbitrary: acc) (simp_all add: validateField_other)

lemma fold_validateField_at:
  "distinct (map fieldId fs) \<Longrightarrow> f \<in> set fs \<Longrightarrow>
   fst (fold (validateField vals) fs acc) (fieldId f) =
     (case lastApplicable f (vals (fieldId f)) of
        None \<Rightarrow> fst acc (fieldId f)
      | Some m \<Rightarrow> Some m)"
proof (induction fs arbitrary: acc)
  case Nil
  then show ?case by simp
next
  case (Cons g gs)
  show ?case
  proof (cases "f = g")
    case True
    with Cons.prems have "fieldId f \<notin> fieldId ` set gs" by auto
    then have "fst (fold (validateField vals) gs (validateField vals g acc)) (fieldId f) =
        fst (validateField vals g acc) (fieldId f)"
      by (rule fold_validateField_other)
    with True show ?thesis by (auto simp: validateField_at split: option.splits)
  next
    case False
    with Cons.prems have in_gs: "f \<in> set gs" and d: "distinct (map fieldId gs)"
      and notin: "fieldId g \<notin> fieldId ` set gs" by auto
    from in_gs notin have ne: "fieldId f \<noteq> fieldId g" by (metis imageI)
    from ne have "fst (validateField vals g acc) (fieldId f) = fst acc (fieldId f)"
      by (simp add: validateField_other)
    with Cons.IH[OF d in_gs, of "validateField vals g acc"] show ?thesis
      by (simp split: option.splits)
  qed
qed

lemma validateField_valid:
  "snd (validateField vals f acc) \<longleftrightarrow> snd acc \<and> lastApplicable f (vals (fieldId f)) = None"
  by (cases "lastApplicable f (vals (fieldId f))")
     (simp_all add: validateField_None validateField_Some)

lemma validateField_empty:
  "fst (validateField vals f acc) = Map.empty \<longleftrightarrow>
     fst acc = Map.empty \<and> lastApplicable f (vals (fieldId f)) = None"
  by (cases "lastApplicable f (vals (fieldId f))")
     (simp_all add: validateField_None validateField_Some)

lemma fold_validateField_valid:
  "snd (fold (validateField vals) fs acc) \<longleftrightarrow>
     snd acc \<and> (\<forall>f\<in>set fs. lastApplicable f (vals (fieldId f)) = None)"
  by (induction fs arbitrary: acc) (auto simp: validateField_valid)

lemma fold_validateField_empty:
  "fst (fold (validateField vals) fs acc) = Map.empty \<longleftrightarrow>
     fst acc = Map.empty \<and> (\<forall>f\<in>set fs. lastApplicable f (vals (fieldId f)) = None)"
  by (induction fs arbitrary: acc) (auto simp: validateField_empty)

lemma sectionErrors_valid_iff:
  "snd (sectionErrors S vals) \<longleftrightarrow> fst (sectionErrors S vals) = Map.empty"
  by (simp add: sectionErrors_def fold_validateField_valid fold_validateField_empty)

lemma sectionErrors_dom:
  "k \<notin> fieldId ` set (sectionFields S) \<Longrightarrow> fst (sectionErrors S vals) k = None"
  by (simp add: sectionErrors_def fold_validateField_other)

lemma sectionErrors_at:
  "distinct (map fieldId (sectionFields S)) \<Longrightarrow> f \<in> set (sectionFields S) \<Longrightarrow>
   fst (sectionErrors S vals) (fieldId f) = lastApplicable f (vals (fieldId f))"
  by (simp add: sectionErrors_def fold_validateField_at split: option.splits)

text \<open>
  The three messages of one field differ from each other, and none is the empty string,
  so that a recorded message is always truthy.
\<close>

lemma messages_differ:
  "minLengthMessage f \<noteq> requiredMessage f"
  "maxLengthMessage f \<noteq> requiredMessage f"
  "maxLengthMessage f \<noteq> minLengthMessage f"
  by (simp_all add: minLengthMessage_def maxLengthMessage_def requiredMessage_def)

lemma messages_truthy:
  "requiredMessage f \<noteq> []" "minLengthMessage f \<noteq> []" "maxLengthMessage f \<noteq> []"
  by (simp_all add: minLengthMessage_def maxLengthMessage_def requiredMessage_def)

lemma lastApplicable_truthy: "lastApplicable f v = Some m \<Longrightarrow> m \<noteq> []"
  by (auto simp: lastApplicable_def messages_truthy split: if_splits)

lemma fold_validateField_truthy:
  "\<forall>k m. fst acc k = Some m \<longrightarrow> m \<noteq> [] \<Longrightarrow>
   fst (fold (validateField vals) fs acc) k = Some m \<Longrightarrow> m \<noteq> []"
proof (induction fs arbitrary: acc)
  case Nil
  then show ?case by simp
next
  case (Cons g gs)
  have "\<forall>k m. fst (validateField vals g acc) k = Some m \<longrightarrow> m \<noteq> []"
  proof (cases "lastApplicable g (vals (fieldId g))")
    case None
    then show ?thesis using Cons.prems(1) by (simp add: validateField_None)
  next
    case (Some a)
    then show ?thesis using Cons.prems(1) lastApplicable_truthy[OF Some]
      by (simp add: validateField_Some)
  qed
  from Cons.IH[OF this] Cons.prems(2) show ?case by simp
qed

lemma sectionErrors_truthy: "fst (sectionErrors S vals) k = Some m \<Longrightarrow> m \<noteq> []"
  unfolding sectionErrors_def by (rule fold_validateField_truthy[of "(Map.empty, True)"]) simp_all

lemma validateSection_Some:
  "validateSection fd st i = Some (ok, st1) \<Longrightarrow>
   i < length (sections fd) \<and>
   ok = snd (sectionErrors (sections fd ! i) (formValues st)) \<and>
   st1 = st\<lparr>formErrors := formErrors st ++ fst (sectionErrors (sections fd ! i) (formValues st))\<rparr>"
  by (auto simp: validateSection_def split: if_splits prod.splits)

lemma validateSection_truthy:
  assumes v: "validateSection fd st i = Some (ok, st1)"
    and inv: "\<And>k m. formErrors st k = Some m \<Longrightarrow> m \<noteq> []"
    and e: "formErrors st1 k = Some m"
  shows "m \<noteq> []"
proof -
  from validateSection_Some[OF v] e
  have "(formErrors st ++ fst (sectionErrors (sections fd ! i) (formValues st))) k = Some m"
    by simp
  then have "fst (sectionErrors (sections fd ! i) (formValues st)) k = Some m \<or>
      formErrors st k = Some m"
    by (auto simp: map_add_Some_iff)
  then show ?thesis using sectionErrors_truthy inv by blast
qed

lemma reachable_truthy: "reachable fd st \<Longrightarrow> formErrors st k = Some m \<Longrightarrow> m \<noteq> []"
proof (induction arbitrary: k m rule: reachable.induct)
  case reach_init
  then show ?case by (simp add: initialState_def)
next
  case (reach_input st fid "value")
  then show ?case by (auto simp: handleInputChange_def Let_def split: if_splits)
next
  case (reach_next st st1)
  from reach_next.hyps(2) obtain ok st2 where
    v: "validateSection fd st (currentSection st) = Some (ok, st2)"
    and f: "formErrors st1 = formErrors st2"
    by (auto simp: goToNextSection_def split: option.splits prod.splits if_splits)
  from reach_next.prems f have "formErrors st2 k = Some m" by simp
  from validateSection_truthy[OF v _ this] reach_next.IH show ?case by blast
next
  case (reach_prev st)
  then show ?case by (auto simp: goToPrevSection_def split: if_splits)
next
  case (reach_submit st st1)
  from reach_submit.hyps(2) obtain ok where
    v: "validateSection fd st (currentSection st) = Some (ok, st1)"
    by (auto simp: handleSubmit_def split: option.splits prod.splits)
  from validateSection_truthy[OF v _ reach_submit.prems] reach_submit.IH show ?case by blast
qed

lemma validateSection_eq:
  "i < length (sections fd) \<Longrightarrow>
   validateSection fd st i =
     Some (snd (sectionErrors (sections fd ! i) (formValues st)),
           st\<lparr>formErrors := formErrors st ++ fst (sectionErrors (sections fd ! i) (formValues st))\<rparr>)"
  by (simp add: validateSection_def split: prod.splits)

section \<open>What validateSection does to the state\<close>

text \<open>
  C4 (as amended). For an index inside the schema \<open>validateSection\<close> always returns. It
  returns only the validity flag, which is true exactly when no message was computed. It is
  not free of effects: it writes the form errors itself, laying the freshly computed
  messages over the earlier ones, so that entries of fields outside the section stay as
  they were. The values and the section index are left unchanged.
\<close>

theorem validateSection_effect:
  assumes "i < length (sections fd)"
  shows "\<exists>ok st1. validateSection fd st i = Some (ok, st1) \<and>
           ok = snd (sectionErrors (sections fd ! i) (formValues st)) \<and>
           (ok \<longleftrightarrow> fst (sectionErrors (sections fd ! i) (formValues st)) = Map.empty) \<and>
           formErrors st1 = formErrors st ++ fst (sectionErrors (sections fd ! i) (formValues st)) \<and>
           (\<forall>k. k \<notin> fieldId ` set (sectionFields (sections fd ! i)) \<longrightarrow>
                formErrors st1 k = formErrors st k) \<and>
           formValues st1 = formValues st \<and>
           currentSection st1 = currentSection st"
  using assms
  by (simp add: validateSection_eq sectionErrors_valid_iff sectionErrors_dom map_add_def)

theorem validateSection_effect_witness:
  "(0::nat) < length (sections exampleForm) \<and>
   validateSection exampleForm initialState 0 =
     Some (False, \<lparr>currentSection = 0, formValues = Map.empty,
            formErrors = [''name'' \<mapsto> ''Name is required'']\<rparr>)"
  using validateSection_effect[of 0 exampleForm initialState]
  by (simp add: validateSection_def validation_defs example_defs)

text \<open>
  The claim as written fails: validating the first section of the example form in the
  initial state changes the form errors, which had no entry for "name" before.
\<close>

theorem validateSection_writes_errors:
  "formErrors initialState ''name'' = None \<and>
   formErrors (snd (the (validateSection exampleForm initialState 0))) ''name'' =
     Some ''Name is required''"
  by (simp add: validateSection_def validation_defs example_defs)

section \<open>Precedence of the rules\<close>

text \<open>
  C5. In a section whose field identifiers are distinct, the entry recorded for a field is
  the message of the last rule that fires, in the order required, min-length, max-length,
  and there is no entry when none fires. In particular a required field holding a
  non-empty string of white space only that is shorter than its \<open>minLength\<close> (and not
  longer than its \<open>maxLength\<close>) fires both the required and the min-length rule and ends
  with the min-length message, which is not the required message.
\<close>

theorem last_rule_wins:
  assumes "distinct (map fieldId (sectionFields S))" and "f \<in> set (sectionFields S)"
  shows "fst (sectionErrors S vals) (fieldId f) =
           (if maxLengthCond f (vals (fieldId f)) then Some (maxLengthMessage f)
            else if minLengthCond f (vals (fieldId f)) then Some (minLengthMessage f)
            else if requiredCond f (vals (fieldId f)) then Some (requiredMessage f)
            else None) \<and>
         (\<forall>s m. required f \<and> vals (fieldId f) = Some (Str s) \<and> s \<noteq> [] \<and>
                (\<forall>c\<in>set s. isWhiteSpace c) \<and> minLength f = Some m \<and> int (length s) < m \<and>
                \<not> maxLengthCond f (vals (fieldId f)) \<longrightarrow>
                requiredCond f (vals (fieldId f)) \<and> minLengthCond f (vals (fieldId f)) \<and>
                fst (sectionErrors S vals) (fieldId f) = Some (minLengthMessage f) \<and>
                minLengthMessage f \<noteq> requiredMessage f)"
proof -
  have a: "fst (sectionErrors S vals) (fieldId f) = lastApplicable f (vals (fieldId f))"
    using assms by (rule sectionErrors_at)
  have b: "requiredCond f (Some (Str s))" if "required f" "\<forall>c\<in>set s. isWhiteSpace c" for s
    using that by (simp add: requiredCond_iff)
  have c: "minLengthCond f (Some (Str s))" if "s \<noteq> []" "minLength f = Some m" "int (length s) < m"
    for s m using that by (simp add: minLengthCond_def truthy_def)
  show ?thesis
    using a b c by (auto simp: lastApplicable_def messages_differ)
qed

theorem last_rule_wins_witness:
  "distinct (map fieldId (sectionFields personalSection)) \<and>
   nameField \<in> set (sectionFields personalSection) \<and>
   fst (sectionErrors personalSection [''name'' \<mapsto> Str '' '']) ''name'' =
     Some ''Name must be at least 2 characters''"
  using last_rule_wins[of personalSection nameField "[''name'' \<mapsto> Str '' '']"]
  by (simp add: validation_defs example_defs)

section \<open>The min-length rule\<close>

text \<open>
  C3 (as amended). For a field with \<open>minLength\<close> defined and a non-empty string value,
  the min-length rule fires exactly when the length of the string is below \<open>minLength\<close>;
  its message is the entry recorded for the field exactly when, in addition, the
  max-length rule (applied after it) does not fire. The rule has a further condition, the
  truthiness of the value: it never fires on the empty string.
\<close>

theorem minLength_rule:
  assumes "minLength f = Some m" and "vals (fieldId f) = Some (Str s)" and "s \<noteq> []"
    and "distinct (map fieldId (sectionFields S))" and "f \<in> set (sectionFields S)"
  shows "(minLengthCond f (vals (fieldId f)) \<longleftrightarrow> int (length s) < m) \<and>
         (fst (sectionErrors S vals) (fieldId f) = Some (minLengthMessage f) \<longleftrightarrow>
            int (length s) < m \<and> \<not> maxLengthCond f (vals (fieldId f))) \<and>
         \<not> minLengthCond f (Some (Str []))"
proof -
  have a: "fst (sectionErrors S vals) (fieldId f) = lastApplicable f (vals (fieldId f))"
    using assms(4,5) by (rule sectionErrors_at)
  have b: "minLengthCond f (vals (fieldId f)) \<longleftrightarrow> int (length s) < m"
    using assms(1-3) by (simp add: minLengthCond_def truthy_def)
  have c: "\<not> minLengthCond f (Some (Str []))"
    by (simp add: minLengthCond_def truthy_def)
  have d: "lastApplicable f (vals (fieldId f)) = Some (minLengthMessage f) \<longleftrightarrow>
      minLengthCond f (vals (fieldId f)) \<and> \<not> maxLengthCond f (vals (fieldId f))"
    using messages_differ[of f] by (auto simp: lastApplicable_def)
  show ?thesis using a b c d by simp
qed

theorem minLength_rule_witness:
  "minLength nickField = Some 2 \<and>
   distinct (map fieldId (sectionFields personalSection)) \<and>
   nickField \<in> set (sectionFields personalSection) \<and>
   fst (sectionErrors personalSection [''name'' \<mapsto> Str ''Alice'', ''nick'' \<mapsto> Str ''x''])
     ''nick'' = Some ''Nickname must be at least 2 characters'' \<and>
   fst (sectionErrors personalSection [''name'' \<mapsto> Str ''Alice'', ''nick'' \<mapsto> Str ''xy''])
     ''nick'' = None"
  using minLength_rule[of nickField 2 "[''name'' \<mapsto> Str ''Alice'', ''nick'' \<mapsto> Str ''x'']"
      "''x''" personalSection]
  by (simp add: validation_defs example_defs)

text \<open>
  The claim as written fails on the empty string: the optional field "Nickname" has
  \<open>minLength\<close> 2, the empty string is shorter than that, and no error at all is computed.
\<close>

theorem minLength_skips_empty_string:
  "minLength nickField = Some 2 \<and>
   int (length ([] :: string)) < 2 \<and>
   sectionErrors personalSection [''name'' \<mapsto> Str ''Alice'', ''nick'' \<mapsto> Str []] =
     (Map.empty, True)"
  by (simp add: validation_defs example_defs)

section \<open>Navigation forwards\<close>

text \<open>
  C6. For a current index inside the schema \<open>goToNextSection\<close> returns, and it merges the
  freshly computed errors of the current section into the form errors. When validation
  computed no error and the index is below the last one, the index grows by exactly one;
  when validation computed an error the index is unchanged, and so it is at the last
  section. A required field of the current section whose value is absent, a string of
  white space only (the empty string included) or the empty list makes validation fail, so
  that the index is unchanged.
\<close>

theorem goToNextSection_spec:
  assumes "currentSection st < length (sections fd)"
  shows "\<exists>st1. goToNextSection fd st = Some st1 \<and>
           formErrors st1 =
             formErrors st ++ fst (sectionErrors (sections fd ! currentSection st) (formValues st)) \<and>
           formValues st1 = formValues st \<and>
           (fst (sectionErrors (sections fd ! currentSection st) (formValues st)) = Map.empty \<and>
              currentSection st + 1 < length (sections fd)
              \<longrightarrow> currentSection st1 = currentSection st + 1) \<and>
           (fst (sectionErrors (sections fd ! currentSection st) (formValues st)) \<noteq> Map.empty
              \<longrightarrow> currentSection st1 = currentSection st) \<and>
           (\<not> currentSection st + 1 < length (sections fd)
              \<longrightarrow> currentSection st1 = currentSection st) \<and>
           ((\<exists>f \<in> set (sectionFields (sections fd ! currentSection st)).
               required f \<and>
               (formValues st (fieldId f) = None \<or>
                (\<exists>s. formValues st (fieldId f) = Some (Str s) \<and> (\<forall>c\<in>set s. isWhiteSpace c)) \<or>
                formValues st (fieldId f) = Some (Arr [])))
              \<longrightarrow> currentSection st1 = currentSection st \<and>
                  fst (sectionErrors (sections fd ! currentSection st) (formValues st)) \<noteq> Map.empty)"
proof -
  let ?E = "sectionErrors (sections fd ! currentSection st) (formValues st)"
  let ?R = "\<exists>f \<in> set (sectionFields (sections fd ! currentSection st)).
               required f \<and>
               (formValues st (fieldId f) = None \<or>
                (\<exists>s. formValues st (fieldId f) = Some (Str s) \<and> (\<forall>c\<in>set s. isWhiteSpace c)) \<or>
                formValues st (fieldId f) = Some (Arr []))"
  have v: "validateSection fd st (currentSection st) =
      Some (snd ?E, st\<lparr>formErrors := formErrors st ++ fst ?E\<rparr>)"
    using assms by (rule validateSection_eq)
  have ok: "snd ?E \<longleftrightarrow> fst ?E = Map.empty" by (rule sectionErrors_valid_iff)
  have req: "fst ?E \<noteq> Map.empty"
    if "f \<in> set (sectionFields (sections fd ! currentSection st))"
      and "requiredCond f (formValues st (fieldId f))" for f
  proof -
    from that(2) have "lastApplicable f (formValues st (fieldId f)) \<noteq> None"
      by (simp add: lastApplicable_def)
    with that(1) show ?thesis
      by (auto simp: sectionErrors_def fold_validateField_empty)
  qed
  have req2: "fst ?E \<noteq> Map.empty" if "?R"
  proof -
    from that obtain f where "f \<in> set (sectionFields (sections fd ! currentSection st))"
      and "requiredCond f (formValues st (fieldId f))"
      by (auto simp: requiredCond_iff)
    then show ?thesis by (rule req)
  qed
  show ?thesis
  proof (cases "fst ?E = Map.empty")
    case True
    with req2 have no: "\<not> ?R" by blast
    have "snd ?E" using True ok by simp
    then show ?thesis using True no
      by (simp add: goToNextSection_def v del: Set.bex_simps)
  next
    case False
    then have "\<not> snd ?E" using ok by simp
    then show ?thesis using False by (simp add: goToNextSection_def v)
  qed
qed

theorem goToNextSection_spec_witness:
  "currentSection initialState < length (sections exampleForm) \<and>
   goToNextSection exampleForm initialState =
     Some \<lparr>currentSection = 0, formValues = Map.empty,
            formErrors = [''name'' \<mapsto> ''Name is required'']\<rparr> \<and>
   goToNextSection exampleForm
       \<lparr>currentSection = 0, formValues = [''name'' \<mapsto> Str ''Alice''], formErrors = Map.empty\<rparr> =
     Some \<lparr>currentSection = 1, formValues = [''name'' \<mapsto> Str ''Alice''], formErrors = Map.empty\<rparr>"
  using goToNextSection_spec[of initialState exampleForm]
  by (simp add: goToNextSection_def validateSection_def validation_defs example_defs)

section \<open>Editing a value\<close>

text \<open>
  C7. In every state the form can reach, \<open>handleInputChange\<close> for a field and any new
  value, valid or not, leaves no error entry for that field, leaves the entries of all
  other fields as they were, and replaces the stored value of the field by the new one.
  (The source removes the entry only when the looked-up message is truthy; every recorded
  message is, see \<open>reachable_truthy\<close>.)
\<close>

theorem handleInputChange_spec:
  assumes "reachable fd st"
  shows "formErrors (handleInputChange fid v st) = (formErrors st)(fid := None) \<and>
         formErrors (handleInputChange fid v st) fid = None \<and>
         (\<forall>k. k \<noteq> fid \<longrightarrow> formErrors (handleInputChange fid v st) k = formErrors st k) \<and>
         formValues (handleInputChange fid v st) = (formValues st)(fid \<mapsto> v) \<and>
         currentSection (handleInputChange fid v st) = currentSection st"
proof -
  have "truthyMessage (formErrors st fid) \<or> formErrors st fid = None"
    using reachable_truthy[OF assms, of fid]
    by (cases "formErrors st fid") (simp_all add: truthyMessage_def)
  then show ?thesis by (auto simp: handleInputChange_def Let_def)
qed

lemma goToNextSection_initial:
  "goToNextSection exampleForm initialState =
     Some \<lparr>currentSection = 0, formValues = Map.empty,
            formErrors = [''name'' \<mapsto> ''Name is required'']\<rparr>"
  by (simp add: goToNextSection_def validateSection_def validation_defs example_defs)

theorem handleInputChange_spec_witness:
  "formErrors (handleInputChange ''name'' (Str ''A'')
       \<lparr>currentSection = 0, formValues = Map.empty,
        formErrors = [''name'' \<mapsto> ''Name is required'']\<rparr>) ''name'' = None \<and>
   formValues (handleInputChange ''name'' (Str ''A'')
       \<lparr>currentSection = 0, formValues = Map.empty,
        formErrors = [''name'' \<mapsto> ''Name is required'']\<rparr>) ''name'' = Some (Str ''A'')"
proof -
  have r: "reachable exampleForm \<lparr>currentSection = 0, formValues = Map.empty,
        formErrors = [''name'' \<mapsto> ''Name is required'']\<rparr>"
    by (rule reach_next[OF reach_init goToNextSection_initial])
  from handleInputChange_spec[OF r, of "''name''" "Str ''A''"] show ?thesis by simp
qed

section \<open>Navigation backwards\<close>

text \<open>
  C8. \<open>goToPrevSection\<close> at an index above 0 moves to the index below, and at index 0 it
  changes nothing. It never validates: in both cases the values and the recorded errors,
  whatever they are, stay as they were.
\<close>

theorem goToPrevSection_spec:
  "(0 < currentSection st \<longrightarrow>
      goToPrevSection st = st\<lparr>currentSection := currentSection st - 1\<rparr>) \<and>
   (currentSection st = 0 \<longrightarrow> goToPrevSection st = st) \<and>
   formValues (goToPrevSection st) = formValues st \<and>
   formErrors (goToPrevSection st) = formErrors st"
  by (simp add: goToPrevSection_def)

theorem goToPrevSection_spec_witness:
  "goToPrevSection \<lparr>currentSection = 1, formValues = Map.empty,
       formErrors = [''hobbies'' \<mapsto> ''Hobbies is required'']\<rparr> =
     \<lparr>currentSection = 0, formValues = Map.empty,
       formErrors = [''hobbies'' \<mapsto> ''Hobbies is required'']\<rparr> \<and>
   goToPrevSection initialState = initialState"
  using goToPrevSection_spec [of "\<lparr>currentSection = 1, formValues = Map.empty,
       formErrors = [''hobbies'' \<mapsto> ''Hobbies is required'']\<rparr>"]
    goToPrevSection_spec [of initialState]
  by (simp add: initialState_def)

section \<open>Registration\<close>

text \<open>
  C9. Starting from a logged-out session, a response with a parsed body leaves the session
  authenticated (user set, logged in) exactly when the response is ok or its message is the
  "User already exists" text. For every other response that is not ok, the message of the
  response is recorded as the error (the fixed text "Failed to register user" stands in
  for a missing or empty message) and the session stays as unauthenticated as it was.
\<close>

theorem registerUser_spec:
  assumes "\<not> isLoggedIn st"
  shows "((isLoggedIn (registerUser u (Response ok (Json msg)) st) \<and>
           user (registerUser u (Response ok (Json msg)) st) = Some u)
          \<longleftrightarrow> (ok \<or> msg = Some userExistsMessage)) \<and>
         (\<not> ok \<and> msg \<noteq> Some userExistsMessage \<longrightarrow>
            error (registerUser u (Response ok (Json msg)) st) = Some (messageOrDefault msg) \<and>
            \<not> isLoggedIn (registerUser u (Response ok (Json msg)) st) \<and>
            user (registerUser u (Response ok (Json msg)) st) = user st) \<and>
         (\<forall>m. msg = Some m \<and> m \<noteq> [] \<longrightarrow> messageOrDefault msg = m)"
  using assms
  by (auto simp: registerUser_def messageOrDefault_def truthyMessage_def Let_def)

theorem registerUser_spec_witness:
  "\<not> isLoggedIn loggedOut \<and>
   isLoggedIn (registerUser alice (Response True (Json (Some ''User created''))) loggedOut) \<and>
   isLoggedIn (registerUser alice (Response False (Json (Some userExistsMessage))) loggedOut) \<and>
   \<not> isLoggedIn (registerUser alice (Response False (Json (Some ''Invalid roll number''))) loggedOut) \<and>
   error (registerUser alice (Response False (Json (Some ''Invalid roll number''))) loggedOut) =
     Some ''Invalid roll number''"
proof -
  have h: "\<not> isLoggedIn loggedOut" by (simp add: loggedOut_def)
  show ?thesis
    using h registerUser_spec [OF h, of alice True "Some ''User created''"]
      registerUser_spec [OF h, of alice False "Some userExistsMessage"]
      registerUser_spec [OF h, of alice False "Some ''Invalid roll number''"]
    by (simp add: userExistsMessage_def)
qed

text \<open>
  When the fetch is rejected or the body does not parse, the error of the thrown Error is
  recorded and user and logged-in flag stay as they were.
\<close>

lemma registerUser_no_body:
  "res = FetchRejected m \<or> res = Response ok (InvalidJson m) \<Longrightarrow>
   error (registerUser u res st) = Some m \<and>
   user (registerUser u res st) = user st \<and>
   isLoggedIn (registerUser u res st) = isLoggedIn st \<and>
   \<not> isLoading (registerUser u res st)"
  by (auto simp: registerUser_def)

text \<open>
  C10. A response that is not ok and carries the "User already exists" message sets the
  user and the logged-in flag and, through the thrown and caught Error of the same call,
  records that message as the error string: both hold together afterwards.
\<close>

theorem registerUser_user_exists:
  "user (registerUser u (Response False (Json (Some userExistsMessage))) st) = Some u \<and>
   isLoggedIn (registerUser u (Response False (Json (Some userExistsMessage))) st) \<and>
   error (registerUser u (Response False (Json (Some userExistsMessage))) st) =
     Some ''User already exists. Fetch /get-form to get form json'' \<and>
   \<not> isLoading (registerUser u (Response False (Json (Some userExistsMessage))) st)"
  by (simp add: registerUser_def messageOrDefault_def truthyMessage_def userExistsMessage_def)

section \<open>Checkbox groups\<close>

text \<open>
  Unchecking an option removes its first occurrence and keeps the order of the rest;
  checking an option leaves the list as it is.
\<close>

lemma indexOf_absent: "v \<notin> set xs \<Longrightarrow> indexOf xs v = - 1"
  by (induction xs) (auto simp: Let_def)

lemma indexOf_present: "v \<in> set xs \<Longrightarrow> 0 \<le> indexOf xs v \<and> indexOf xs v \<noteq> - 1"
  by (induction xs) (auto simp: Let_def)

lemma splice1_indexOf: "v \<in> set xs \<Longrightarrow> splice1 xs (nat (indexOf xs v)) = remove1 v xs"
proof (induction xs)
  case Nil
  then show ?case by simp
next
  case (Cons x xs)
  show ?case
  proof (cases "x = v")
    case True
    then show ?thesis by (simp add: splice1_def)
  next
    case False
    with Cons.prems have m: "v \<in> set xs" by simp
    from indexOf_present[OF m] have "nat (indexOf xs v + 1) = Suc (nat (indexOf xs v))" by linarith
    with False Cons.IH[OF m] indexOf_present[OF m] show ?thesis
      by (simp add: splice1_def Let_def)
  qed
qed

lemma checkboxUpdated_unchecked: "checkboxUpdated xs v False = remove1 v xs"
proof (cases "v \<in> set xs")
  case True
  then show ?thesis
    using indexOf_present[OF True] by (simp add: checkboxUpdated_def Let_def splice1_indexOf)
next
  case False
  then show ?thesis
    by (simp add: checkboxUpdated_def Let_def indexOf_absent remove1_idem)
qed

lemma checkboxUpdated_checked: "checkboxUpdated xs v True = xs"
  by (simp add: checkboxUpdated_def)

lemma checkbox_on_then_off:
  "v \<notin> set xs \<Longrightarrow> checkboxUpdated (checkboxUpdated xs v True) v False = xs"
  by (simp add: checkboxUpdated_checked checkboxUpdated_unchecked remove1_idem)

text \<open>
  C2. The claim wants checking an absent option to append it. In the source the branch for
  a checked box is empty: checking option a on a fresh form stores the empty list, and
  checking a when the list is [b] stores [b] again. (Unchecking does what the claim says,
  see \<open>checkboxUpdated_unchecked\<close>.)
\<close>

theorem checkbox_check_is_inert:
  "checkboxUpdated [] ''a'' True = [] \<and>
   formValues (checkboxOnChange hobbiesField optionA True initialState) ''hobbies'' = Some (Arr []) \<and>
   formValues (checkboxOnChange hobbiesField optionA True
     (initialState\<lparr>formValues := [''hobbies'' \<mapsto> Arr [''b'']]\<rparr>)) ''hobbies'' = Some (Arr [''b''])"
  by (simp add: checkboxUpdated_def checkboxOnChange_def handleInputChange_def renderValue_def
      checkboxValues_def truthy_def truthyMessage_def example_defs)

section \<open>The required rule\<close>

text \<open>The required rule fires on an empty list whether or not the field is required.\<close>

lemma requiredCond_empty_list: "requiredCond f (Some (Arr []))"
  by (simp add: requiredCond_def)

text \<open>
  C1. The claim wants no required-error on a field that is not required. In the source the
  test for an empty array stands outside the conjunction with \<open>field.required\<close>: the
  optional checkbox group "Hobbies" with the empty list as its value receives
  "Hobbies is required", and the section is invalid. (\<open>requiredCond_iff\<close> gives the
  condition of the source in full.)
\<close>

theorem required_error_on_optional_field:
  "\<not> required hobbiesField \<and>
   sectionErrors hobbiesSection [''hobbies'' \<mapsto> Arr []] =
     ([''hobbies'' \<mapsto> ''Hobbies is required''], False) \<and>
   validateSection exampleForm
       \<lparr>currentSection = 1, formValues = [''hobbies'' \<mapsto> Arr []], formErrors = Map.empty\<rparr> 1 =
     Some (False, \<lparr>currentSection = 1, formValues = [''hobbies'' \<mapsto> Arr []],
       formErrors = [''hobbies'' \<mapsto> ''Hobbies is required'']\<rparr>)"
  by (simp add: validateSection_def validation_defs example_defs)

end
